theory Spec2Isabelle
  imports Main "HOL-Library.Word"
begin

section \<open>Bytes, hexadecimal strings and little-endian integers\<close>

type_synonym byte = "8 word"

text \<open>The errors a call can end with: a JavaScript \<^verbatim>\<open>TypeError\<close> or a plain
  \<^verbatim>\<open>Error\<close>, each with its message.\<close>

datatype error = TypeError string | Error string

definition bindE :: "error + 'a \<Rightarrow> ('a \<Rightarrow> error + 'b) \<Rightarrow> error + 'b" where
  "bindE r f = (case r of Inl e \<Rightarrow> Inl e | Inr v \<Rightarrow> f v)"

text \<open>The value of a hexadecimal digit, of either case, as Node's hex decoder reads it.\<close>

definition hexval :: "char \<Rightarrow> nat option" where
  "hexval c =
     (let n = (of_char c :: nat) in
      if 48 \<le> n \<and> n \<le> 57 then Some (n - 48)
      else if 97 \<le> n \<and> n \<le> 102 then Some (n - 87)
      else if 65 \<le> n \<and> n \<le> 70 then Some (n - 55)
      else None)"

text \<open>The lower-case digit of a value below 16, as \<^verbatim>\<open>toString('hex')\<close> prints it.\<close>

definition hexdigit :: "nat \<Rightarrow> char" where
  "hexdigit d = ''0123456789abcdef'' ! (d mod 16)"

text \<open>\<^verbatim>\<open>Buffer.from(s, 'hex')\<close>: two digits make a byte; decoding stops at the
  first pair that is not two hexadecimal digits, and a trailing single character is
  dropped.\<close>

fun fromHex :: "string \<Rightarrow> byte list" where
  "fromHex (a # b # rest) =
     (case hexval a of
        None \<Rightarrow> []
      | Some x \<Rightarrow> (case hexval b of
                     None \<Rightarrow> []
                   | Some y \<Rightarrow> of_nat (16 * x + y) # fromHex rest))"
| "fromHex [a] = []"
| "fromHex [] = []"

text \<open>\<^verbatim>\<open>buf.toString('hex')\<close>.\<close>

fun toHex :: "byte list \<Rightarrow> string" where
  "toHex [] = []"
| "toHex (b # bs) = hexdigit (unat b div 16) # hexdigit (unat b mod 16) # toHex bs"

definition lowerHexChar :: "char \<Rightarrow> bool" where
  "lowerHexChar c = (c \<in> set ''0123456789abcdef'')"

definition lowerHex :: "string \<Rightarrow> bool" where
  "lowerHex s = list_all lowerHexChar s"

text \<open>\<^verbatim>\<open>s.startsWith(p)\<close> and \<^verbatim>\<open>s.slice(n)\<close> for \<open>0 \<le> n\<close>.\<close>

definition startsWith :: "string \<Rightarrow> string \<Rightarrow> bool" where
  "startsWith s p = (take (length p) s = p)"

definition slice_from :: "nat \<Rightarrow> string \<Rightarrow> string" where
  "slice_from n s = drop n s"

text \<open>Fixed-width little-endian integers: \<open>le_bytes k n\<close> are the \<open>k\<close> low bytes of
  \<open>n\<close>, least significant first; \<open>le_nat\<close> reads them back.\<close>

fun le_bytes :: "nat \<Rightarrow> nat \<Rightarrow> byte list" where
  "le_bytes 0 n = []"
| "le_bytes (Suc k) n = of_nat (n mod 256) # le_bytes k (n div 256)"

fun le_nat :: "byte list \<Rightarrow> nat" where
  "le_nat [] = 0"
| "le_nat (b # bs) = unat b + 256 * le_nat bs"

definition is_int32 :: "int \<Rightarrow> bool" where
  "is_int32 v = (- (2 ^ 31) \<le> v \<and> v < 2 ^ 31)"

definition is_uint32 :: "int \<Rightarrow> bool" where
  "is_uint32 v = (0 \<le> v \<and> v < 2 ^ 32)"

definition writeInt32LE :: "int \<Rightarrow> byte list" where
  "writeInt32LE v = le_bytes 4 (nat (v mod 2 ^ 32))"

definition readInt32LE :: "byte list \<Rightarrow> int" where
  "readInt32LE bs =
     (let u = int (le_nat (take 4 bs)) in if u < 2 ^ 31 then u else u - 2 ^ 32)"

definition writeUInt32LE :: "int \<Rightarrow> byte list" where
  "writeUInt32LE v = le_bytes 4 (nat (v mod 2 ^ 32))"

definition readUInt32LE :: "byte list \<Rightarrow> int" where
  "readUInt32LE bs = int (le_nat (take 4 bs))"

text \<open>Decimal printing of an array index, for the property names of arrays.\<close>

function decimal :: "nat \<Rightarrow> string" where
  "decimal n = (if n < 10 then [hexdigit n] else decimal (n div 10) @ [hexdigit (n mod 10)])"
  by pat_completeness auto
termination
  by (relation "measure id") auto

section \<open>JavaScript values\<close>

text \<open>A content identifier, as \<^verbatim>\<open>new multiformats.CID(version, code, multihash)\<close>
  builds it.\<close>

record CID =
  version :: nat
  code :: nat
  multihash :: "byte list"

text \<open>The values the two codec functions can be handed. Numbers are the integral ones.
  A typed array carries whether it is an instance of \<^verbatim>\<open>Uint8Array\<close> (true for
  \<^verbatim>\<open>Uint8Array\<close> itself and for its subclasses, Node's \<^verbatim>\<open>Buffer\<close> among them),
  the name of its constructor, and its bytes. An object is the map of its own
  properties.\<close>

datatype jsval =
    JUndefined
  | JNull
  | JBool bool
  | JNum int
  | JBigInt int
  | JStr string
  | JSymbol string
  | JFun
  | JTypedArray bool string "byte list"
  | JCid CID
  | JArr "jsval list"
  | JObj "string \<Rightarrow> jsval option"

type_synonym props = "string \<Rightarrow> jsval option"

abbreviation Uint8Array :: "byte list \<Rightarrow> jsval" where
  "Uint8Array bs \<equiv> JTypedArray True ''Uint8Array'' bs"

abbreviation Buffer :: "byte list \<Rightarrow> jsval" where
  "Buffer bs \<equiv> JTypedArray True ''Buffer'' bs"

fun typeof :: "jsval \<Rightarrow> string" where
  "typeof JUndefined = ''undefined''"
| "typeof JNull = ''object''"
| "typeof (JBool b) = ''boolean''"
| "typeof (JNum n) = ''number''"
| "typeof (JBigInt n) = ''bigint''"
| "typeof (JStr s) = ''string''"
| "typeof (JSymbol s) = ''symbol''"
| "typeof JFun = ''function''"
| "typeof (JTypedArray u c bs) = ''object''"
| "typeof (JCid c) = ''object''"
| "typeof (JArr xs) = ''object''"
| "typeof (JObj m) = ''object''"

text \<open>\<^verbatim>\<open>v instanceof Uint8Array\<close> and \<^verbatim>\<open>v.constructor.name\<close> (of the values that
  have a constructor).\<close>

fun instanceof_Uint8Array :: "jsval \<Rightarrow> bool" where
  "instanceof_Uint8Array (JTypedArray u c bs) = u"
| "instanceof_Uint8Array v = False"

fun constructor_name :: "jsval \<Rightarrow> string option" where
  "constructor_name JUndefined = None"
| "constructor_name JNull = None"
| "constructor_name (JBool b) = Some ''Boolean''"
| "constructor_name (JNum n) = Some ''Number''"
| "constructor_name (JBigInt n) = Some ''BigInt''"
| "constructor_name (JStr s) = Some ''String''"
| "constructor_name (JSymbol s) = Some ''Symbol''"
| "constructor_name JFun = Some ''Function''"
| "constructor_name (JTypedArray u c bs) = Some c"
| "constructor_name (JCid c) = Some ''CID''"
| "constructor_name (JArr xs) = Some ''Array''"
| "constructor_name (JObj m) = Some ''Object''"

text \<open>The own enumerable properties \<^verbatim>\<open>Object.assign\<close> copies from a source:
  none of \<^verbatim>\<open>null\<close>, \<^verbatim>\<open>undefined\<close> and the other primitives, the indexed
  characters of a string, the indexed elements of an array or typed array, the
  properties of an object.\<close>

definition indexed :: "jsval list \<Rightarrow> props" where
  "indexed xs = map_of (zip (map decimal [0 ..< length xs]) xs)"

fun own_props :: "jsval \<Rightarrow> props" where
  "own_props (JObj m) = m"
| "own_props (JArr xs) = indexed xs"
| "own_props (JTypedArray u c bs) = indexed (map (\<lambda>b. JNum (uint b)) bs)"
| "own_props (JStr s) = indexed (map (\<lambda>c. JStr [c]) s)"
| "own_props (JCid c) =
     [''version'' \<mapsto> JNum (int (version c)), ''code'' \<mapsto> JNum (int (code c)),
      ''multihash'' \<mapsto> Uint8Array (multihash c)]"
| "own_props v = Map.empty"

text \<open>\<^verbatim>\<open>Object.assign(target, ...sources)\<close> on the target's property map: later
  sources overwrite earlier ones.\<close>

fun Object_assign :: "props \<Rightarrow> jsval list \<Rightarrow> props" where
  "Object_assign t [] = t"
| "Object_assign t (s # ss) = Object_assign (t ++ own_props s) ss"

section \<open>The collaborators of the block codec\<close>

text \<open>The codec calls the \<^verbatim>\<open>bitcoin-block\<close> package for the header layout. Its two
  entry points are parameters of the codec: \<open>fromPorcelain_encode p\<close> stands for
  \<^verbatim>\<open>BitcoinBlock.fromPorcelain(p).encode()\<close> and \<open>decodeHeaderOnly_toPorcelain b\<close>
  for \<^verbatim>\<open>BitcoinBlock.decodeHeaderOnly(b).toPorcelain()\<close>.\<close>

record BitcoinBlock_lib =
  fromPorcelain_encode :: "props \<Rightarrow> error + byte list"
  decodeHeaderOnly_toPorcelain :: "byte list \<Rightarrow> error + props"

text \<open>Modelled from the spec: \<^verbatim>\<open>fromHashHex\<close> of the \<^verbatim>\<open>bitcoin-block\<close> package is
  not among the sources. The spec calls its result the hex-reversed field, and the
  test file says of it that a big-endian hash string goes in and is reversed: the
  bytes of the hex string, in reverse order. A value that is not a string cannot be
  decoded.\<close>

fun fromHashHex :: "jsval option \<Rightarrow> error + byte list" where
  "fromHashHex (Some (JStr s)) = Inr (rev (fromHex s))"
| "fromHashHex v = Inl (TypeError ''The first argument must be of type string'')"

text \<open>Modelled from the spec: the module \<^verbatim>\<open>./constants\<close> is not among the sources.
  \<open>HASH_ALG\<close> is the double-SHA-256 tag, \<^verbatim>\<open>dbl-sha2-256\<close> in the fixtures' notes;
  \<open>CODEC_TX_CODE\<close> is \<^verbatim>\<open>0xb1\<close> as the test file defines it, and \<open>CODEC_BLOCK_CODE\<close>
  is the \<^verbatim>\<open>0xb0\<close> that the fixtures' block identifiers (\<^verbatim>\<open>bagyacvra...\<close>, the bytes
  \<^verbatim>\<open>01 b0 01 56 20\<close> in base 32) carry where the transaction identifiers
  (\<^verbatim>\<open>bagyqcvra...\<close>, \<^verbatim>\<open>01 b1 01 56 20\<close>) carry \<^verbatim>\<open>0xb1\<close>.\<close>

definition HASH_ALG :: string where
  "HASH_ALG = ''dbl-sha2-256''"

definition CODEC_BLOCK_CODE :: nat where
  "CODEC_BLOCK_CODE = 0xb0"

definition CODEC_TX_CODE :: nat where
  "CODEC_TX_CODE = 0xb1"

text \<open>The unsigned variable-length integer of the multiformats: seven bits a byte, least
  significant group first, the top bit set on every byte but the last.\<close>

function varint :: "nat \<Rightarrow> byte list" where
  "varint n = (if n < 128 then [of_nat n] else of_nat (128 + n mod 128) # varint (n div 128))"
  by pat_completeness auto
termination
  by (relation "measure id") auto

text \<open>Modelled from the spec: \<^verbatim>\<open>multiformats.multihash.encode(digest, name)\<close> belongs
  to the identifier substrate, which is not among the sources. It does not hash: it
  prefixes the digest with the code of the named algorithm and the digest's length.
  For \<^verbatim>\<open>dbl-sha2-256\<close> and 32 bytes the prefix is the \<^verbatim>\<open>5620\<close> of the test file's
  \<^verbatim>\<open>MULTIHASH_DBLSHA2256_LEAD\<close>.\<close>

definition hash_code :: "string \<Rightarrow> nat option" where
  "hash_code name = (if name = ''dbl-sha2-256'' then Some 0x56 else None)"

definition multihash_encode :: "byte list \<Rightarrow> string \<Rightarrow> error + byte list" where
  "multihash_encode digest name =
     (case hash_code name of
        None \<Rightarrow> Inl (Error ''Unsupported hash algorithm'')
      | Some c \<Rightarrow> Inr (varint c @ varint (length digest) @ digest))"

section \<open>The block codec\<close>

text \<open>\<^verbatim>\<open>encode\<close> of \<^verbatim>\<open>encodeInit\<close>: a value whose \<^verbatim>\<open>typeof\<close> is not
  \<^verbatim>\<open>'object'\<close> is refused; otherwise the own properties are copied into a fresh
  object, \<^verbatim>\<open>tx\<close> is set to \<^verbatim>\<open>null\<close> in the copy, and the copy is serialised.\<close>

definition encode :: "BitcoinBlock_lib \<Rightarrow> jsval \<Rightarrow> error + byte list" where
  "encode lib obj =
     (if typeof obj \<noteq> ''object'' then Inl (TypeError ''Can only encode() an object'')
      else fromPorcelain_encode lib
             (Object_assign Map.empty [obj, JObj [''tx'' \<mapsto> JNull]]))"

text \<open>\<^verbatim>\<open>Buffer.from(buf)\<close> of a typed array: a new \<^verbatim>\<open>Buffer\<close> with a copy of the
  bytes.\<close>

fun Buffer_from :: "jsval \<Rightarrow> byte list" where
  "Buffer_from (JTypedArray u c bs) = bs"
| "Buffer_from v = []"

text \<open>\<^verbatim>\<open>decode\<close> of \<^verbatim>\<open>decodeInit\<close>: only an instance of \<^verbatim>\<open>Uint8Array\<close> whose
  constructor is named \<^verbatim>\<open>Uint8Array\<close> is accepted. The header is parsed from a copy
  of the bytes, and two links are added to the parsed record: \<^verbatim>\<open>parent\<close> from
  \<^verbatim>\<open>previousblockhash\<close> and \<^verbatim>\<open>tx\<close> from \<^verbatim>\<open>merkleroot\<close>.\<close>

definition decode :: "BitcoinBlock_lib \<Rightarrow> jsval \<Rightarrow> error + props" where
  "decode lib buf =
     (if \<not> (instanceof_Uint8Array buf \<and> constructor_name buf = Some ''Uint8Array'')
      then Inl (TypeError ''Can only decode() a Buffer or Uint8Array'')
      else
        bindE (decodeHeaderOnly_toPorcelain lib (Buffer_from buf)) (\<lambda>deserialized.
        bindE (fromHashHex (deserialized ''previousblockhash'')) (\<lambda>prev.
        bindE (multihash_encode prev HASH_ALG) (\<lambda>parentHash.
        let deserialized1 = deserialized(''parent'' \<mapsto>
              JCid \<lparr>version = 1, code = CODEC_BLOCK_CODE, multihash = parentHash\<rparr>) in
        bindE (fromHashHex (deserialized1 ''merkleroot'')) (\<lambda>root.
        bindE (multihash_encode root HASH_ALG) (\<lambda>txHash.
        Inr (deserialized1(''tx'' \<mapsto>
              JCid \<lparr>version = 1, code = CODEC_TX_CODE, multihash = txHash\<rparr>))))))))"

section \<open>The header layout of the external parser\<close>

text \<open>Modelled from the spec: the \<^verbatim>\<open>bitcoin-block\<close> package, the native parser the
  codec calls, is not among the sources. The spec gives its contract: the six fields
  version (int32), previousBlockHash and merkleRoot (32 bytes each, shown as hex in
  reversed byte order), time, bits and nonce (uint32 each) are serialised in this
  order, little-endian and fixed-width, into 80 bytes; decoding reads the first 80
  bytes only; a record of another shape is a type mismatch and a truncated buffer is
  malformed.\<close>

fun get_number :: "string \<Rightarrow> jsval option \<Rightarrow> error + int" where
  "get_number k (Some (JNum n)) = Inr n"
| "get_number k v = Inl (TypeError (k @ '' property must be a number''))"

definition isHexString :: "string \<Rightarrow> nat \<Rightarrow> bool" where
  "isHexString s n = (length s = n \<and> list_all (\<lambda>c. hexval c \<noteq> None) s)"

fun get_hash :: "string \<Rightarrow> jsval option \<Rightarrow> error + byte list" where
  "get_hash k (Some (JStr s)) =
     (if isHexString s 64 then Inr (rev (fromHex s))
      else Inl (TypeError (k @ '' property should be a 64-character hex string'')))"
| "get_hash k v = Inl (TypeError (k @ '' property should be a 64-character hex string''))"

definition BitcoinBlock_fromPorcelain_encode :: "props \<Rightarrow> error + byte list" where
  "BitcoinBlock_fromPorcelain_encode p =
     bindE (get_number ''version'' (p ''version'')) (\<lambda>ver.
     bindE (get_hash ''previousblockhash'' (p ''previousblockhash'')) (\<lambda>prev.
     bindE (get_hash ''merkleroot'' (p ''merkleroot'')) (\<lambda>root.
     bindE (get_number ''time'' (p ''time'')) (\<lambda>time.
     bindE (get_number ''bits'' (p ''bits'')) (\<lambda>bits.
     bindE (get_number ''nonce'' (p ''nonce'')) (\<lambda>nonce.
     if is_int32 ver \<and> is_uint32 time \<and> is_uint32 bits \<and> is_uint32 nonce
     then Inr (writeInt32LE ver @ prev @ root @ writeUInt32LE time @ writeUInt32LE bits
               @ writeUInt32LE nonce)
     else Inl (TypeError ''header field out of range'')))))))"

definition BitcoinBlock_decodeHeaderOnly_toPorcelain :: "byte list \<Rightarrow> error + props" where
  "BitcoinBlock_decodeHeaderOnly_toPorcelain buf =
     (if length buf < 80 then Inl (Error ''truncated header'')
      else Inr
        [''version'' \<mapsto> JNum (readInt32LE buf),
         ''previousblockhash'' \<mapsto> JStr (toHex (rev (take 32 (drop 4 buf)))),
         ''merkleroot'' \<mapsto> JStr (toHex (rev (take 32 (drop 36 buf)))),
         ''time'' \<mapsto> JNum (readUInt32LE (drop 68 buf)),
         ''bits'' \<mapsto> JNum (readUInt32LE (drop 72 buf)),
         ''nonce'' \<mapsto> JNum (readUInt32LE (drop 76 buf))])"

definition BitcoinBlock :: BitcoinBlock_lib where
  "BitcoinBlock =
     \<lparr>fromPorcelain_encode = BitcoinBlock_fromPorcelain_encode,
      decodeHeaderOnly_toPorcelain = BitcoinBlock_decodeHeaderOnly_toPorcelain\<rparr>"

text \<open>A valid header record: the six primitive fields, each of its type and in its
  range, the two hashes as 64 lower-case hexadecimal digits (the form the decoder
  prints).\<close>

fun int32_field :: "jsval option \<Rightarrow> bool" where
  "int32_field (Some (JNum n)) = is_int32 n"
| "int32_field v = False"

fun uint32_field :: "jsval option \<Rightarrow> bool" where
  "uint32_field (Some (JNum n)) = is_uint32 n"
| "uint32_field v = False"

fun hash_field :: "jsval option \<Rightarrow> bool" where
  "hash_field (Some (JStr s)) = (length s = 64 \<and> lowerHex s)"
| "hash_field v = False"

definition valid_header :: "props \<Rightarrow> bool" where
  "valid_header r =
     (int32_field (r ''version'') \<and> hash_field (r ''previousblockhash'')
      \<and> hash_field (r ''merkleroot'') \<and> uint32_field (r ''time'')
      \<and> uint32_field (r ''bits'') \<and> uint32_field (r ''nonce''))"

section \<open>The block codec on a store\<close>

text \<open>To speak of what a call leaves behind in the caller's objects, the same two
  functions on an explicit store: a list of cells, an address being an index. The
  caller passes the address of its value; a new object or buffer is a new cell at the
  end; assigning a property rewrites the cell of that object. Property values are held
  in the cell itself.\<close>

type_synonym store = "jsval list"

definition alloc :: "store \<Rightarrow> jsval \<Rightarrow> nat \<times> store" where
  "alloc s v = (length s, s @ [v])"

text \<open>\<^verbatim>\<open>Object.assign(target, ...sources)\<close> writes into the target's cell.\<close>

definition assign_st :: "store \<Rightarrow> nat \<Rightarrow> nat list \<Rightarrow> store" where
  "assign_st s t srcs = s[t := JObj (Object_assign (own_props (s ! t)) (map (\<lambda>a. s ! a) srcs))]"

text \<open>\<^verbatim>\<open>o.k = v\<close> on the object at address \<open>a\<close>.\<close>

definition set_prop :: "store \<Rightarrow> nat \<Rightarrow> string \<Rightarrow> jsval \<Rightarrow> store" where
  "set_prop s a k v = s[a := JObj ((own_props (s ! a))(k \<mapsto> v))]"

definition encode_st :: "BitcoinBlock_lib \<Rightarrow> store \<Rightarrow> nat \<Rightarrow> (error + nat) \<times> store" where
  "encode_st lib s obj =
     (if typeof (s ! obj) \<noteq> ''object''
      then (Inl (TypeError ''Can only encode() an object''), s)
      else
        (let (target, s1) = alloc s (JObj Map.empty);
             (override, s2) = alloc s1 (JObj [''tx'' \<mapsto> JNull]);
             s3 = assign_st s2 target [obj, override]
         in case fromPorcelain_encode lib (own_props (s3 ! target)) of
              Inl e \<Rightarrow> (Inl e, s3)
            | Inr bytes \<Rightarrow> (let (out, s4) = alloc s3 (Buffer bytes) in (Inr out, s4))))"

definition decode_st :: "BitcoinBlock_lib \<Rightarrow> store \<Rightarrow> nat \<Rightarrow> (error + nat) \<times> store" where
  "decode_st lib s buf =
     (if \<not> (instanceof_Uint8Array (s ! buf) \<and> constructor_name (s ! buf) = Some ''Uint8Array'')
      then (Inl (TypeError ''Can only decode() a Buffer or Uint8Array''), s)
      else
        (let (buf1, s1) = alloc s (Buffer (Buffer_from (s ! buf)))
         in case decodeHeaderOnly_toPorcelain lib (Buffer_from (s1 ! buf1)) of
              Inl e \<Rightarrow> (Inl e, s1)
            | Inr porcelain \<Rightarrow>
               (let (deserialized, s2) = alloc s1 (JObj porcelain)
                in case bindE (fromHashHex (own_props (s2 ! deserialized) ''previousblockhash''))
                          (\<lambda>prev. multihash_encode prev HASH_ALG) of
                     Inl e \<Rightarrow> (Inl e, s2)
                   | Inr parentHash \<Rightarrow>
                      (let s3 = set_prop s2 deserialized ''parent''
                                  (JCid \<lparr>version = 1, code = CODEC_BLOCK_CODE,
                                         multihash = parentHash\<rparr>)
                       in case bindE (fromHashHex (own_props (s3 ! deserialized) ''merkleroot''))
                                 (\<lambda>root. multihash_encode root HASH_ALG) of
                            Inl e \<Rightarrow> (Inl e, s3)
                          | Inr txHash \<Rightarrow>
                              (Inr deserialized,
                               set_prop s3 deserialized ''tx''
                                 (JCid \<lparr>version = 1, code = CODEC_TX_CODE,
                                        multihash = txHash\<rparr>))))))"

section \<open>Transactions\<close>

text \<open>The transaction record. An output holds its script as the hexadecimal string
  that the test file reads (\<^verbatim>\<open>vout.scriptPubKey.hex\<close>); an input holds the
  previous-output hash and index, its unlocking script, its sequence number and its
  witness stack, which is empty when the input carries none.\<close>

record script_pub_key =
  hex :: string

record txout =
  txout_value :: int
  scriptPubKey :: script_pub_key

record txin =
  prevout_hash :: "byte list"
  prevout_index :: int
  scriptSig :: "byte list"
  txin_sequence :: int
  txinwitness :: "byte list list"

record transaction =
  tx_version :: int
  vin :: "txin list"
  vout :: "txout list"
  locktime :: int

record block =
  tx :: "transaction list"

text \<open>Modelled from the spec: the transaction codec (\<^verbatim>\<open>src/bitcoin-tx.js\<close> and the
  serialiser it calls) is not among the sources. The spec gives the layout. Compact
  integers: below \<^verbatim>\<open>0xfd\<close> one byte, up to \<^verbatim>\<open>0xffff\<close> the marker \<^verbatim>\<open>0xfd\<close> and
  two bytes, up to \<^verbatim>\<open>0xffffffff\<close> the marker \<^verbatim>\<open>0xfe\<close> and four bytes, else the
  marker \<^verbatim>\<open>0xff\<close> and eight bytes, little-endian.\<close>

definition compactSize :: "nat \<Rightarrow> byte list" where
  "compactSize n =
     (if n < 0xfd then [of_nat n]
      else if n \<le> 0xffff then 0xfd # le_bytes 2 n
      else if n \<le> 0xffffffff then 0xfe # le_bytes 4 n
      else 0xff # le_bytes 8 n)"

definition var_bytes :: "byte list \<Rightarrow> byte list" where
  "var_bytes bs = compactSize (length bs) @ bs"

text \<open>Modelled from the spec: an input is its outpoint, script length, script and
  sequence number; an output is its value in eight bytes, script length and script; a
  witness stack is its item count and the items, each with its length.\<close>

definition encode_txin :: "txin \<Rightarrow> byte list" where
  "encode_txin i =
     prevout_hash i @ le_bytes 4 (nat (prevout_index i mod 2 ^ 32)) @ var_bytes (scriptSig i)
     @ le_bytes 4 (nat (txin_sequence i mod 2 ^ 32))"

definition encode_txout :: "txout \<Rightarrow> byte list" where
  "encode_txout out =
     le_bytes 8 (nat (txout_value out mod 2 ^ 64)) @ var_bytes (fromHex (hex (scriptPubKey out)))"

definition encode_witness :: "txin \<Rightarrow> byte list" where
  "encode_witness i =
     compactSize (length (txinwitness i)) @ concat (map var_bytes (txinwitness i))"

text \<open>Modelled from the spec: a transaction is segregated-witness-tagged when the
  marker and flag bytes follow its version, and then at least one input carries a
  non-empty witness stack; on the record, the tag is that some input does. The spec
  leaves the two byte values open; they are the \<^verbatim>\<open>00 01\<close> of the format.\<close>

definition segwit_tagged :: "transaction \<Rightarrow> bool" where
  "segwit_tagged t = list_ex (\<lambda>i. txinwitness i \<noteq> []) (vin t)"

definition SEGWIT_MARKER_FLAG :: "byte list" where
  "SEGWIT_MARKER_FLAG = [0x00, 0x01]"

text \<open>Modelled from the spec: \<^verbatim>\<open>encode(record, {witness})\<close> of the transaction codec.
  With \<open>witness\<close> true and a tagged record: version, marker and flag, input count,
  inputs, output count, outputs, the witness stack of each input, lock time. With
  \<open>witness\<close> false: no marker, no flag and no witness stack, whatever the tag.\<close>

definition encode_tx :: "transaction \<Rightarrow> bool \<Rightarrow> byte list" where
  "encode_tx t witness =
     le_bytes 4 (nat (tx_version t mod 2 ^ 32))
     @ (if witness \<and> segwit_tagged t then SEGWIT_MARKER_FLAG else [])
     @ compactSize (length (vin t)) @ concat (map encode_txin (vin t))
     @ compactSize (length (vout t)) @ concat (map encode_txout (vout t))
     @ (if witness \<and> segwit_tagged t then concat (map encode_witness (vin t)) else [])
     @ le_bytes 4 (nat (locktime t mod 2 ^ 32))"

section \<open>The merkle tree\<close>

text \<open>Modelled from the spec: the tree builder (\<^verbatim>\<open>src/bitcoin-tx.js\<close>) is not among
  the sources. While the current level has more than one node: a level of odd size
  has its last node duplicated; consecutive nodes are paired left to right, and the
  double hash of each pair, left before right, is a node of the next level. The double
  hash \<open>dh\<close> is a parameter. An inner node comes with the 64 bytes it was hashed
  from.\<close>

definition dup_last :: "'a list \<Rightarrow> 'a list" where
  "dup_last xs = (if odd (length xs) then xs @ [last xs] else xs)"

fun pairs :: "'a list \<Rightarrow> ('a \<times> 'a) list" where
  "pairs (l # r # rest) = (l, r) # pairs rest"
| "pairs [x] = []"
| "pairs [] = []"

record node =
  digest :: "byte list"
  binary :: "byte list"

definition next_level :: "(byte list \<Rightarrow> byte list) \<Rightarrow> byte list list \<Rightarrow> node list" where
  "next_level dh level =
     map (\<lambda>(l, r). \<lparr>digest = dh (l @ r), binary = l @ r\<rparr>) (pairs (dup_last level))"

function merkle :: "(byte list \<Rightarrow> byte list) \<Rightarrow> byte list list \<Rightarrow> node list" where
  "merkle dh level =
     (if 1 < length level
      then (let nxt = next_level dh level in nxt @ merkle dh (map digest nxt))
      else [])"
  by pat_completeness auto
termination
proof (relation "measure (\<lambda>(dh, level). length level)")
  show "wf (measure (\<lambda>(dh, level). length level))" by simp
next
  fix dh :: "byte list \<Rightarrow> byte list" and level :: "byte list list" and nxt
  assume "1 < length level" and "nxt = next_level dh level"
  moreover have "length (pairs ys) = length ys div 2" for ys :: "byte list list"
    by (induction ys rule: pairs.induct) auto
  moreover have "odd n \<Longrightarrow> 1 < n \<Longrightarrow> Suc (n div 2) < n" for n :: nat
    by presburger
  ultimately show "((dh, map digest nxt), (dh, level)) \<in> measure (\<lambda>(dh, level). length level)"
    by (auto simp: next_level_def dup_last_def)
qed

text \<open>Modelled from the spec: the node sequence of a block's transactions, leaves first,
  then each level bottom-up, each node with the bytes it is the hash of. In witness
  mode the witness-inclusive encodings are hashed and the first leaf, the coinbase,
  enters the tree as 32 zero bytes. The test file adds what the spec does not say:
  in witness mode the coinbase leaf is not among the emitted nodes (\<^verbatim>\<open>verifyMerkle\<close>
  starts its count at 1, "we skip the coinbase for full merkle", and compares the
  first emitted node with the second transaction).\<close>

definition leaf :: "(byte list \<Rightarrow> byte list) \<Rightarrow> bool \<Rightarrow> transaction \<Rightarrow> node" where
  "leaf dh witness t = \<lparr>digest = dh (encode_tx t witness), binary = encode_tx t witness\<rparr>"

definition encodeAll :: "(byte list \<Rightarrow> byte list) \<Rightarrow> bool \<Rightarrow> transaction list \<Rightarrow> node list" where
  "encodeAll dh witness txs =
     (let leaves = map (leaf dh witness) txs;
          emitted = (if witness then drop 1 leaves else leaves);
          hashes = (if witness then replicate (min 1 (length txs)) (replicate 32 0)
                                    @ map digest (drop 1 leaves)
                    else map digest leaves)
      in emitted @ merkle dh hashes)"

text \<open>The count of \<^verbatim>\<open>verifyMerkle\<close> in the test file: the number of nodes it expects
  for \<open>n\<close> transactions (\<^verbatim>\<open>Math.ceil(last / 2)\<close> on a count), the index it ends with
  after one step a node, and its last assertion.\<close>

function expectedNodes_loop :: "nat \<Rightarrow> nat \<Rightarrow> nat" where
  "expectedNodes_loop lastN expectedN =
     (if 1 < lastN
      then (let lastN' = (lastN + 1) div 2 in expectedNodes_loop lastN' (expectedN + lastN'))
      else expectedN)"
  by pat_completeness auto
termination
  by (relation "measure (\<lambda>(lastN, expectedN). lastN)") auto

definition expectedNodes :: "nat \<Rightarrow> nat" where
  "expectedNodes n = expectedNodes_loop n n"

definition verifyMerkle_index :: "bool \<Rightarrow> node list \<Rightarrow> nat" where
  "verifyMerkle_index witness emitted = (if witness then 1 else 0) + length emitted"

definition verifyMerkle_count :: "nat \<Rightarrow> bool \<Rightarrow> node list \<Rightarrow> bool" where
  "verifyMerkle_count n witness emitted = (verifyMerkle_index witness emitted = expectedNodes n)"

section \<open>The witness commitment in the coinbase\<close>

text \<open>\<^verbatim>\<open>findWitnessCommitment\<close> of the test file. The loop over the outputs of the
  coinbase returns at the first script of 76 hexadecimal characters that starts with
  \<^verbatim>\<open>6a24aa21a9ed\<close>; falling out of the loop returns \<^verbatim>\<open>undefined\<close>, here \<open>None\<close>.
  A block without transactions has no \<^verbatim>\<open>tx[0]\<close>, and reading its \<^verbatim>\<open>vout\<close>
  throws.\<close>

fun findWitnessCommitment_loop :: "txout list \<Rightarrow> byte list option" where
  "findWitnessCommitment_loop [] = None"
| "findWitnessCommitment_loop (out # rest) =
     (let spk = hex (scriptPubKey out) in
      if length spk = 38 * 2 \<and> startsWith spk ''6a24aa21a9ed''
      then Some (fromHex (slice_from 12 spk))
      else findWitnessCommitment_loop rest)"

definition findWitnessCommitment :: "block \<Rightarrow> error + byte list option" where
  "findWitnessCommitment blk =
     (case tx blk of
        [] \<Rightarrow> Inl (TypeError ''Cannot read properties of undefined (reading vout)'')
      | coinbase # others \<Rightarrow> Inr (findWitnessCommitment_loop (vout coinbase)))"

text \<open>The same on the bytes of the scripts: the prefix, and what makes a script a
  commitment.\<close>

definition commitment_prefix :: "byte list" where
  "commitment_prefix = [0x6a, 0x24, 0xaa, 0x21, 0xa9, 0xed]"

definition is_commitment :: "byte list \<Rightarrow> bool" where
  "is_commitment script = (length script = 38 \<and> take 6 script = commitment_prefix)"

definition output_of :: "int \<times> byte list \<Rightarrow> txout" where
  "output_of vs = \<lparr>txout_value = fst vs, scriptPubKey = \<lparr>hex = toHex (snd vs)\<rparr>\<rparr>"

section \<open>Example values\<close>

text \<open>The header of the first block of the chain, with its merkle root replaced by a
  run of one digit.\<close>

definition example_header :: props where
  "example_header =
     [''version'' \<mapsto> JNum 1,
      ''previousblockhash'' \<mapsto> JStr (replicate 64 CHR ''0''),
      ''merkleroot'' \<mapsto> JStr (replicate 64 CHR ''a''),
      ''time'' \<mapsto> JNum 1231006505, ''bits'' \<mapsto> JNum 486604799,
      ''nonce'' \<mapsto> JNum 2083236893]"

text \<open>A store with a caller's header record, which carries a transaction array, at
  address 0 and a caller's 80 bytes at address 1.\<close>

definition example_store :: store where
  "example_store =
     [JObj (example_header(''tx'' \<mapsto> JArr [JStr ''a transaction''])),
      Uint8Array (replicate 80 0)]"

text \<open>A transaction without witness data, one with a witness stack on its input, and the
  byte-wise identity in the place of the double hash.\<close>

definition example_tx :: transaction where
  "example_tx =
     \<lparr>tx_version = 1,
      vin = [\<lparr>prevout_hash = replicate 32 0, prevout_index = 4294967295,
              scriptSig = [0x04, 0xff, 0xff, 0x00, 0x1d], txin_sequence = 4294967295,
              txinwitness = []\<rparr>],
      vout = [\<lparr>txout_value = 5000000000, scriptPubKey = \<lparr>hex = ''6a''\<rparr>\<rparr>],
      locktime = 0\<rparr>"

definition example_segwit_tx :: transaction where
  "example_segwit_tx =
     example_tx\<lparr>vin := [\<lparr>prevout_hash = replicate 32 0, prevout_index = 4294967295,
                           scriptSig = [], txin_sequence = 4294967295,
                           txinwitness = [replicate 32 0]\<rparr>]\<rparr>"


section \<open>What \<^verbatim>\<open>encode\<close> does with its argument\<close>

lemma Object_assign_tx_null:
  "Object_assign Map.empty [obj, JObj [''tx'' \<mapsto> JNull]] = (own_props obj)(''tx'' \<mapsto> JNull)"
  by (simp add: fun_eq_iff map_add_def)

lemma encode_object:
  "typeof obj = ''object'' \<Longrightarrow>
   encode lib obj = fromPorcelain_encode lib ((own_props obj)(''tx'' \<mapsto> JNull))"
  by (simp add: encode_def Object_assign_tx_null del: Object_assign.simps)

lemma tx_overwritten:
  assumes "r1 |` (- {''tx''}) = r2 |` (- {''tx''})"
  shows "r1(''tx'' \<mapsto> v) = r2(''tx'' \<mapsto> v)"
proof
  fix k
  show "(r1(''tx'' \<mapsto> v)) k = (r2(''tx'' \<mapsto> v)) k"
  proof (cases "k = ''tx''")
    case True
    then show ?thesis by simp
  next
    case False
    then have "(r1 |` (- {''tx''})) k = r1 k" and "(r2 |` (- {''tx''})) k = r2 k"
      by (simp_all add: restrict_map_def)
    with assms False show ?thesis by simp
  qed
qed

text \<open>C6. \<^verbatim>\<open>encode\<close> never serialises a transaction list: two records that agree on
  every property but \<^verbatim>\<open>tx\<close> (one may hold an array of transactions there, the other
  nothing) have the same encoding, whatever the serialiser behind the codec does,
  because \<^verbatim>\<open>tx\<close> is \<^verbatim>\<open>null\<close> in the copy it is given.\<close>

theorem encode_ignores_tx:
  assumes "r1 |` (- {''tx''}) = r2 |` (- {''tx''})"
  shows "encode lib (JObj r1) = encode lib (JObj r2)"
  using tx_overwritten [OF assms, of JNull] by (simp add: encode_object)

theorem encode_ignores_tx_witness:
  "(example_header(''tx'' \<mapsto> JArr [JStr ''a transaction''])) |` (- {''tx''})
     = example_header |` (- {''tx''})
   \<and> encode BitcoinBlock (JObj (example_header(''tx'' \<mapsto> JArr [JStr ''a transaction''])))
       = encode BitcoinBlock (JObj example_header)"
proof -
  have h: "(example_header(''tx'' \<mapsto> JArr [JStr ''a transaction''])) |` (- {''tx''})
             = example_header |` (- {''tx''})"
    by (simp add: fun_eq_iff restrict_map_def)
  show ?thesis using h encode_ignores_tx [OF h] by simp
qed

section \<open>What \<^verbatim>\<open>decode\<close> accepts\<close>

text \<open>C10. \<^verbatim>\<open>decode\<close> accepts only direct \<^verbatim>\<open>Uint8Array\<close> instances: a value whose
  constructor is not named \<^verbatim>\<open>Uint8Array\<close>, or that is no instance of it, gets the
  \<^verbatim>\<open>TypeError\<close> of the guard. Node's \<^verbatim>\<open>Buffer\<close>, an instance of \<^verbatim>\<open>Uint8Array\<close>
  with a constructor of its own that the message names, is among them.\<close>

theorem decode_only_direct_Uint8Array:
  "constructor_name v \<noteq> Some ''Uint8Array'' \<or> \<not> instanceof_Uint8Array v \<Longrightarrow>
   decode lib v = Inl (TypeError ''Can only decode() a Buffer or Uint8Array'')"
  by (auto simp: decode_def)

theorem decode_only_direct_Uint8Array_witness:
  "constructor_name (Buffer (replicate 80 0)) \<noteq> Some ''Uint8Array''
   \<and> decode BitcoinBlock (Buffer (replicate 80 0))
       = Inl (TypeError ''Can only decode() a Buffer or Uint8Array'')"
  using decode_only_direct_Uint8Array [of "Buffer (replicate 80 0)" BitcoinBlock]
  by simp

section \<open>What the codec leaves in the caller's objects\<close>

text \<open>Every cell that existed before a call holds after it what it held before: the
  calls only add cells and write to the cells they added.\<close>

lemma encode_st_frame: "take (length s) (snd (encode_st lib s obj)) = s"
  by (auto simp: encode_st_def alloc_def assign_st_def Let_def split: sum.splits)

lemma decode_st_frame: "take (length s) (snd (decode_st lib s buf)) = s"
  by (auto simp: decode_st_def alloc_def set_prop_def Let_def split: sum.splits)

lemma nth_of_take: "take n t = s \<Longrightarrow> a < length s \<Longrightarrow> t ! a = s ! a"
  by (metis nth_take length_take min_less_iff_conj)

text \<open>The functions on the store compute what \<open>encode\<close> and \<open>decode\<close> compute on
  the value at the address they are given.\<close>

lemma encode_st_copy:
  assumes "obj < length s"
  shows "own_props (assign_st (s @ [JObj Map.empty, JObj [''tx'' \<mapsto> JNull]]) (length s)
                      [obj, Suc (length s)] ! length s)
         = (own_props (s ! obj))(''tx'' \<mapsto> JNull)"
  using assms by (simp add: assign_st_def nth_append fun_eq_iff map_add_def)

lemma encode_st_unfold:
  "typeof (s ! obj) = ''object'' \<Longrightarrow>
   encode_st lib s obj =
     (let s3 = assign_st (s @ [JObj Map.empty, JObj [''tx'' \<mapsto> JNull]]) (length s)
                 [obj, Suc (length s)]
      in case fromPorcelain_encode lib (own_props (s3 ! length s)) of
           Inl e \<Rightarrow> (Inl e, s3)
         | Inr bytes \<Rightarrow> (Inr (length s3), s3 @ [Buffer bytes]))"
  by (auto simp: encode_st_def alloc_def Let_def split: sum.splits)

lemma encode_st_result:
  assumes "obj < length s"
  shows "(case fst (encode_st lib s obj) of
            Inl e \<Rightarrow> encode lib (s ! obj) = Inl e
          | Inr out \<Rightarrow> (\<exists>bytes. encode lib (s ! obj) = Inr bytes
                          \<and> snd (encode_st lib s obj) ! out = Buffer bytes))"
proof (cases "typeof (s ! obj) = ''object''")
  case False
  then show ?thesis by (simp add: encode_st_def encode_def)
next
  case True
  show ?thesis
    by (simp add: encode_st_unfold [OF True] encode_object [OF True] encode_st_copy [OF assms]
          Let_def split: sum.splits)
qed

lemma decode_st_result:
  assumes "buf < length s"
  shows "(case fst (decode_st lib s buf) of
            Inl e \<Rightarrow> decode lib (s ! buf) = Inl e
          | Inr out \<Rightarrow> (\<exists>d. decode lib (s ! buf) = Inr d
                          \<and> snd (decode_st lib s buf) ! out = JObj d))"
  using assms
  by (auto simp: decode_st_def decode_def alloc_def set_prop_def Let_def nth_append bindE_def
        split: sum.splits)

text \<open>C9. Both operations leave their inputs unchanged: after \<^verbatim>\<open>encode(r)\<close> the
  caller's record holds every property it held, \<^verbatim>\<open>tx\<close> included, and after
  \<^verbatim>\<open>decode(b)\<close> the caller's byte sequence holds the same bytes.\<close>

theorem codec_leaves_inputs_unchanged:
  assumes "obj < length s" and "buf < length s"
  shows "snd (encode_st lib s obj) ! obj = s ! obj \<and> snd (decode_st lib s buf) ! buf = s ! buf"
  using assms nth_of_take [OF encode_st_frame] nth_of_take [OF decode_st_frame] by blast

theorem codec_leaves_inputs_unchanged_witness:
  "0 < length example_store \<and> 1 < length example_store
   \<and> snd (encode_st BitcoinBlock example_store 0) ! 0 = example_store ! 0
   \<and> own_props (snd (encode_st BitcoinBlock example_store 0) ! 0) ''tx''
       = Some (JArr [JStr ''a transaction''])
   \<and> snd (decode_st BitcoinBlock example_store 1) ! 1 = Uint8Array (replicate 80 0)"
proof -
  have h0: "0 < length example_store" and h1: "1 < length example_store"
    by (simp_all add: example_store_def)
  have e: "example_store ! 0 = JObj (example_header(''tx'' \<mapsto> JArr [JStr ''a transaction'']))"
    and b: "example_store ! Suc 0 = Uint8Array (replicate 80 0)"
    by (simp_all add: example_store_def)
  show ?thesis
    using h0 h1 codec_leaves_inputs_unchanged [OF h0 h1, of BitcoinBlock] by (simp add: e b)
qed

section \<open>Little-endian integers and hexadecimal strings read back\<close>

lemma length_le_bytes [simp]: "length (le_bytes k n) = k"
  by (induction k arbitrary: n) auto

lemma unat_byte_of_nat: "unat (of_nat (n mod 256) :: byte) = n mod 256"
  by (simp add: unat_of_nat)

lemma le_nat_le_bytes: "n < 256 ^ k \<Longrightarrow> le_nat (le_bytes k n) = n"
proof (induction k arbitrary: n)
  case 0
  then show ?case by simp
next
  case (Suc k)
  from Suc.prems have "n div 256 < 256 ^ k"
    by (simp add: less_mult_imp_div_less mult.commute)
  then have "le_nat (le_bytes k (n div 256)) = n div 256" by (rule Suc.IH)
  then show ?case by (simp add: unat_byte_of_nat)
qed

lemma le_bytes_le_nat: "le_bytes (length bs) (le_nat bs) = bs"
proof (induction bs)
  case Nil
  then show ?case by simp
next
  case (Cons b bs)
  have "unat b < 256" using unsigned_less [of b, where ?'a = nat] by simp
  then have "(unat b + 256 * le_nat bs) mod 256 = unat b" "(unat b + 256 * le_nat bs) div 256 = le_nat bs"
    by simp_all
  with Cons show ?case by simp
qed

lemma le_nat_bound: "le_nat bs < 256 ^ length bs"
proof (induction bs)
  case Nil
  then show ?case by simp
next
  case (Cons b bs)
  have "unat b < 256" using unsigned_less [of b, where ?'a = nat] by simp
  moreover from Cons have "le_nat bs + 1 \<le> 256 ^ length bs" by simp
  then have "256 * (le_nat bs + 1) \<le> 256 * 256 ^ length bs" by (rule mult_le_mono2)
  ultimately show ?case by simp
qed

lemma readUInt32LE_write: "is_uint32 v \<Longrightarrow> readUInt32LE (writeUInt32LE v @ rest) = v"
proof -
  assume a: "is_uint32 v"
  then have "nat v < 256 ^ 4" by (simp add: is_uint32_def, arith)
  then have "le_nat (le_bytes 4 (nat v)) = nat v" by (rule le_nat_le_bytes)
  moreover have "v mod 4294967296 = v" using a by (simp add: is_uint32_def)
  ultimately show ?thesis using a
    by (simp add: is_uint32_def readUInt32LE_def writeUInt32LE_def)
qed

lemma readInt32LE_write: "is_int32 v \<Longrightarrow> readInt32LE (writeInt32LE v @ rest) = v"
proof -
  assume a: "is_int32 v"
  have m: "v mod 4294967296 = (if 0 \<le> v then v else v + 4294967296)"
  proof (cases "0 \<le> v")
    case True
    then show ?thesis using a by (simp add: is_int32_def)
  next
    case False
    have "(v + 4294967296) mod 4294967296 = v + 4294967296"
      using a False by (intro mod_pos_pos_trivial) (simp_all add: is_int32_def)
    then show ?thesis using False by simp
  qed
  have "nat (v mod 4294967296) < 256 ^ 4" using a by (simp add: m is_int32_def, arith)
  then have "le_nat (le_bytes 4 (nat (v mod 4294967296))) = nat (v mod 4294967296)"
    by (rule le_nat_le_bytes)
  then show ?thesis using a
    by (auto simp: readInt32LE_def writeInt32LE_def m is_int32_def Let_def)
qed

lemma hexdigit_table:
  "list_all (\<lambda>d. hexval (hexdigit d) = Some d) [0 ..< 16]"
  by code_simp

lemma hexval_table:
  "list_all (\<lambda>c. case hexval c of None \<Rightarrow> False | Some x \<Rightarrow> x < 16 \<and> hexdigit x = c)
     ''0123456789abcdef''"
  by code_simp

lemma hexval_hexdigit: "d < 16 \<Longrightarrow> hexval (hexdigit d) = Some d"
proof -
  assume "d < 16"
  then have "d \<in> set [0 ..< 16]" by simp
  with hexdigit_table show ?thesis by (simp only: list_all_iff)
qed

lemma lower_hex_char:
  assumes "lowerHexChar c"
  shows "\<exists>x < 16. hexval c = Some x \<and> hexdigit x = c"
proof -
  from assms have "c \<in> set ''0123456789abcdef''" by (simp only: lowerHexChar_def)
  with hexval_table
  have "case hexval c of None \<Rightarrow> False | Some x \<Rightarrow> x < 16 \<and> hexdigit x = c"
    by (simp only: list_all_iff)
  then show ?thesis by (cases "hexval c") auto
qed

lemma unat_byte_of_nat_small: "n < 256 \<Longrightarrow> unat (of_nat n :: byte) = n"
  by (simp add: unat_of_nat)

lemma lowerHex_Cons: "lowerHex (c # s) = (lowerHexChar c \<and> lowerHex s)"
  by (simp add: lowerHex_def)

lemma toHex_fromHex: "lowerHex s \<Longrightarrow> even (length s) \<Longrightarrow> toHex (fromHex s) = s"
proof (induction s rule: fromHex.induct)
  case (1 a b rest)
  from "1.prems" have la: "lowerHexChar a" and lb: "lowerHexChar b" and lr: "lowerHex rest"
    by (simp_all add: lowerHex_Cons)
  from lower_hex_char [OF la] obtain x where x: "x < 16" "hexval a = Some x" "hexdigit x = a"
    by blast
  from lower_hex_char [OF lb] obtain y where y: "y < 16" "hexval b = Some y" "hexdigit y = b"
    by blast
  have r: "toHex (fromHex rest) = rest"
    using "1.IH" [OF x(2) y(2) lr] "1.prems"(2) by simp
  have "16 * x + y < 256" using x(1) y(1) by simp
  then have u: "unat (of_nat (16 * x + y) :: byte) = 16 * x + y"
    by (rule unat_byte_of_nat_small)
  have "(16 * x + y) div 16 = x" "(16 * x + y) mod 16 = y" using x(1) y(1) by simp_all
  then show ?case using x y r u by simp
next
  case (2 a)
  then show ?case by simp
next
  case 3
  then show ?case by simp
qed

lemma length_toHex [simp]: "length (toHex bs) = 2 * length bs"
  by (induction bs) auto

lemma toHex_append: "toHex (xs @ ys) = toHex xs @ toHex ys"
  by (induction xs) auto

lemma fromHex_toHex: "fromHex (toHex bs) = bs"
proof (induction bs)
  case Nil
  then show ?case by simp
next
  case (Cons b bs)
  have "unat b < 256" using unsigned_less [of b, where ?'a = nat] by simp
  then have "unat b div 16 < 16" and "unat b mod 16 < 16" by simp_all
  then show ?case using Cons by (simp add: hexval_hexdigit)
qed

lemma length_fromHex:
  "list_all (\<lambda>c. hexval c \<noteq> None) s \<Longrightarrow> length (fromHex s) = length s div 2"
proof (induction s rule: fromHex.induct)
  case (1 a b rest)
  then obtain x y where "hexval a = Some x" "hexval b = Some y" by auto
  with 1 show ?case by simp
next
  case (2 a)
  then show ?case by simp
next
  case 3
  then show ?case by simp
qed

lemma lowerHex_hexval: "lowerHex s \<Longrightarrow> list_all (\<lambda>c. hexval c \<noteq> None) s"
proof (induction s)
  case Nil
  then show ?case by simp
next
  case (Cons c s)
  then have "lowerHexChar c" and "lowerHex s" by (simp_all add: lowerHex_Cons)
  moreover from lower_hex_char [OF \<open>lowerHexChar c\<close>] have "hexval c \<noteq> None" by auto
  ultimately show ?case using Cons.IH by simp
qed

lemma lowerHex_isHexString: "lowerHex s \<Longrightarrow> length s = n \<Longrightarrow> isHexString s n"
  unfolding isHexString_def using lowerHex_hexval by blast

section \<open>The links \<^verbatim>\<open>decode\<close> adds\<close>

declare varint.simps [simp del] decimal.simps [simp del]

lemma varint_small: "n < 128 \<Longrightarrow> varint n = [of_nat n]"
  by (subst varint.simps) simp

lemma multihash_encode_dbl: "multihash_encode d HASH_ALG = Inr (0x56 # varint (length d) @ d)"
  by (simp add: multihash_encode_def HASH_ALG_def hash_code_def varint_small)

lemma decode_accepts:
  assumes "decodeHeaderOnly_toPorcelain lib bs = Inr p"
    and "p ''previousblockhash'' = Some (JStr ph)" and "p ''merkleroot'' = Some (JStr mr)"
  shows "decode lib (Uint8Array bs) =
     Inr (p(''parent'' \<mapsto> JCid \<lparr>version = 1, code = CODEC_BLOCK_CODE,
                               multihash = 0x56 # varint (length (fromHex ph)) @ rev (fromHex ph)\<rparr>,
            ''tx'' \<mapsto> JCid \<lparr>version = 1, code = CODEC_TX_CODE,
                           multihash = 0x56 # varint (length (fromHex mr)) @ rev (fromHex mr)\<rparr>))"
  using assms by (simp add: decode_def bindE_def multihash_encode_dbl Let_def)

lemma decode_Inr_D:
  assumes "decode lib buf = Inr d"
  shows "\<exists>bs p ph mr. buf = Uint8Array bs \<and> decodeHeaderOnly_toPorcelain lib bs = Inr p
           \<and> p ''previousblockhash'' = Some (JStr ph) \<and> p ''merkleroot'' = Some (JStr mr)"
proof -
  from assms have g: "instanceof_Uint8Array buf" "constructor_name buf = Some ''Uint8Array''"
    by (auto simp: decode_def split: if_splits)
  then obtain bs where buf: "buf = Uint8Array bs" by (cases buf) auto
  from assms buf obtain p where p: "decodeHeaderOnly_toPorcelain lib bs = Inr p"
    by (cases "decodeHeaderOnly_toPorcelain lib bs") (auto simp: decode_def bindE_def)
  from assms buf p obtain x where x: "fromHashHex (p ''previousblockhash'') = Inr x"
    by (cases "fromHashHex (p ''previousblockhash'')") (auto simp: decode_def bindE_def)
  then obtain ph where ph: "p ''previousblockhash'' = Some (JStr ph)"
    by (auto elim: fromHashHex.elims)
  from assms buf p x obtain y where y: "fromHashHex (p ''merkleroot'') = Inr y"
    by (cases "fromHashHex (p ''merkleroot'')")
       (auto simp: decode_def bindE_def multihash_encode_dbl Let_def)
  then obtain mr where mr: "p ''merkleroot'' = Some (JStr mr)"
    by (auto elim: fromHashHex.elims)
  from buf p ph mr show ?thesis by blast
qed

text \<open>The parser as the spec describes it accepts every buffer of at least 80 bytes, and
  reads no byte beyond the first 80.\<close>

lemma parser_accepts_80:
  assumes "80 \<le> length bs"
  shows "\<exists>p ph mr. decodeHeaderOnly_toPorcelain BitcoinBlock bs = Inr p
           \<and> p ''previousblockhash'' = Some (JStr ph) \<and> p ''merkleroot'' = Some (JStr mr)"
  using assms by (simp add: BitcoinBlock_def BitcoinBlock_decodeHeaderOnly_toPorcelain_def)

lemma decode_succeeds_80:
  assumes "80 \<le> length bs"
  shows "\<exists>d. decode BitcoinBlock (Uint8Array bs) = Inr d"
proof -
  from parser_accepts_80 [OF assms] obtain p ph mr
    where "decodeHeaderOnly_toPorcelain BitcoinBlock bs = Inr p"
      and "p ''previousblockhash'' = Some (JStr ph)" and "p ''merkleroot'' = Some (JStr mr)"
    by blast
  from decode_accepts [OF this] show ?thesis by blast
qed

text \<open>C2, as the code has it. For every input that \<^verbatim>\<open>decode\<close> accepts, the record it
  returns carries two links built without hashing anew: each is the hex-reversed field
  (\<^verbatim>\<open>previousblockhash\<close>, \<^verbatim>\<open>merkleroot\<close>), prefixed as a multihash with the code
  \<^verbatim>\<open>0x56\<close> of the double-SHA-256 algorithm and its length, in an identifier of
  version 1. The link \<^verbatim>\<open>parent\<close> carries the block codec tag; the link to the
  transactions, which the code names \<^verbatim>\<open>tx\<close>, carries the transaction codec tag.\<close>

theorem decode_links:
  assumes "decode lib buf = Inr d"
  shows "\<exists>ph mr. d ''previousblockhash'' = Some (JStr ph) \<and> d ''merkleroot'' = Some (JStr mr)
     \<and> d ''parent'' = Some (JCid \<lparr>version = 1, code = CODEC_BLOCK_CODE,
            multihash = 0x56 # varint (length (fromHex ph)) @ rev (fromHex ph)\<rparr>)
     \<and> d ''tx'' = Some (JCid \<lparr>version = 1, code = CODEC_TX_CODE,
            multihash = 0x56 # varint (length (fromHex mr)) @ rev (fromHex mr)\<rparr>)"
proof -
  from decode_Inr_D [OF assms] obtain bs p ph mr
    where buf: "buf = Uint8Array bs" and p: "decodeHeaderOnly_toPorcelain lib bs = Inr p"
      and ph: "p ''previousblockhash'' = Some (JStr ph)" and mr: "p ''merkleroot'' = Some (JStr mr)"
    by blast
  from decode_accepts [OF p ph mr] assms buf
  have "d = p(''parent'' \<mapsto> JCid \<lparr>version = 1, code = CODEC_BLOCK_CODE,
                               multihash = 0x56 # varint (length (fromHex ph)) @ rev (fromHex ph)\<rparr>,
            ''tx'' \<mapsto> JCid \<lparr>version = 1, code = CODEC_TX_CODE,
                           multihash = 0x56 # varint (length (fromHex mr)) @ rev (fromHex mr)\<rparr>)"
    by simp
  with ph mr show ?thesis by simp
qed

theorem decode_links_witness:
  "\<exists>d. decode BitcoinBlock (Uint8Array (replicate 80 0)) = Inr d
     \<and> (\<exists>ph mr. d ''previousblockhash'' = Some (JStr ph) \<and> d ''merkleroot'' = Some (JStr mr)
     \<and> d ''parent'' = Some (JCid \<lparr>version = 1, code = CODEC_BLOCK_CODE,
            multihash = 0x56 # varint (length (fromHex ph)) @ rev (fromHex ph)\<rparr>)
     \<and> d ''tx'' = Some (JCid \<lparr>version = 1, code = CODEC_TX_CODE,
            multihash = 0x56 # varint (length (fromHex mr)) @ rev (fromHex mr)\<rparr>))"
proof -
  have "80 \<le> length (replicate 80 (0::byte))" by simp
  from decode_succeeds_80 [OF this] obtain d
    where d: "decode BitcoinBlock (Uint8Array (replicate 80 0)) = Inr d" by blast
  from decode_links [OF d] d show ?thesis by blast
qed

text \<open>C2, as the specification words it, fails: the transactions link of the header of 80 zero
  bytes carries the tag \<^verbatim>\<open>0xb1\<close>, which is not the block codec tag \<^verbatim>\<open>0xb0\<close>.\<close>

theorem transactions_root_block_tagged_counterexample:
  "\<exists>d c. decode BitcoinBlock (Uint8Array (replicate 80 0)) = Inr d
      \<and> d ''tx'' = Some (JCid c) \<and> code c = 0xb1 \<and> CODEC_BLOCK_CODE = 0xb0"
proof -
  have "80 \<le> length (replicate 80 (0::byte))" by simp
  from parser_accepts_80 [OF this] obtain p ph mr
    where "decodeHeaderOnly_toPorcelain BitcoinBlock (replicate 80 0) = Inr p"
      and "p ''previousblockhash'' = Some (JStr ph)" and "p ''merkleroot'' = Some (JStr mr)"
    by blast
  from decode_accepts [OF this] show ?thesis
    by (simp add: CODEC_TX_CODE_def CODEC_BLOCK_CODE_def)
qed

lemma parser_reads_80:
  "decodeHeaderOnly_toPorcelain BitcoinBlock bs
     = decodeHeaderOnly_toPorcelain BitcoinBlock (take 80 bs)"
proof (cases "80 \<le> length bs")
  case False
  then show ?thesis by simp
next
  case True
  then show ?thesis
    by (simp add: BitcoinBlock_def BitcoinBlock_decodeHeaderOnly_toPorcelain_def
          readInt32LE_def readUInt32LE_def drop_take min_def)
qed

lemma decode_Uint8Array:
  "decode lib (Uint8Array bs) =
     bindE (decodeHeaderOnly_toPorcelain lib bs) (\<lambda>p. decode \<lparr>fromPorcelain_encode = fromPorcelain_encode lib, decodeHeaderOnly_toPorcelain = (\<lambda>_. Inr p)\<rparr> (Uint8Array []))"
  by (simp add: decode_def bindE_def split: sum.splits)

text \<open>C8. \<^verbatim>\<open>decode\<close> fails with a \<^verbatim>\<open>TypeError\<close> for every value that is not a
  byte sequence (no instance of \<^verbatim>\<open>Uint8Array\<close>); of the bytes it accepts it reads
  the first 80 only: the result is that of the first 80 bytes alone, and 80 bytes are
  enough for it to return a record.\<close>

theorem decode_type_and_length:
  "(\<not> instanceof_Uint8Array v \<longrightarrow>
      decode lib v = Inl (TypeError ''Can only decode() a Buffer or Uint8Array''))
   \<and> decode BitcoinBlock (Uint8Array bs) = decode BitcoinBlock (Uint8Array (take 80 bs))
   \<and> (80 \<le> length bs \<longrightarrow> (\<exists>d. decode BitcoinBlock (Uint8Array bs) = Inr d))"
proof (intro conjI impI)
  assume "\<not> instanceof_Uint8Array v"
  then show "decode lib v = Inl (TypeError ''Can only decode() a Buffer or Uint8Array'')"
    by (simp add: decode_def)
next
  show "decode BitcoinBlock (Uint8Array bs) = decode BitcoinBlock (Uint8Array (take 80 bs))"
    by (subst (1 2) decode_Uint8Array) (simp only: parser_reads_80 [of bs, symmetric])
next
  assume "80 \<le> length bs"
  then show "\<exists>d. decode BitcoinBlock (Uint8Array bs) = Inr d" by (rule decode_succeeds_80)
qed

theorem decode_type_and_length_witness:
  "decode BitcoinBlock (JStr ''00'') = Inl (TypeError ''Can only decode() a Buffer or Uint8Array'')
   \<and> decode BitcoinBlock (Uint8Array (replicate 80 0 @ [1, 2, 3]))
       = decode BitcoinBlock (Uint8Array (replicate 80 0))
   \<and> (\<exists>d. decode BitcoinBlock (Uint8Array (replicate 80 0 @ [1, 2, 3])) = Inr d)"
proof -
  have t: "take 80 (replicate 80 (0::byte) @ [1, 2, 3]) = replicate 80 0"
    and l: "80 \<le> length (replicate 80 (0::byte) @ [1, 2, 3])"
    and n: "\<not> instanceof_Uint8Array (JStr ''00'')"
    by simp_all
  from decode_type_and_length [of "JStr ''00''" BitcoinBlock "replicate 80 0 @ [1, 2, 3]"] l n
  show ?thesis unfolding t by blast
qed

section \<open>The header round trip\<close>

lemma int32_fieldD: "int32_field x \<Longrightarrow> \<exists>v. x = Some (JNum v) \<and> is_int32 v"
  by (erule int32_field.elims) auto

lemma uint32_fieldD: "uint32_field x \<Longrightarrow> \<exists>v. x = Some (JNum v) \<and> is_uint32 v"
  by (erule uint32_field.elims) auto

lemma hash_fieldD: "hash_field x \<Longrightarrow> \<exists>s. x = Some (JStr s) \<and> length s = 64 \<and> lowerHex s"
  by (erule hash_field.elims) auto

lemma length_write32 [simp]: "length (writeInt32LE v) = 4" "length (writeUInt32LE v) = 4"
  by (simp_all add: writeInt32LE_def writeUInt32LE_def)

lemma readUInt32LE_write_only: "is_uint32 v \<Longrightarrow> readUInt32LE (writeUInt32LE v) = v"
  using readUInt32LE_write [of v "[]"] by simp

lemma length_hash_bytes:
  assumes "length s = 64" and "lowerHex s"
  shows "length (fromHex s) = 32"
  using length_fromHex [OF lowerHex_hexval [OF assms(2)]] assms(1) by simp

lemma parser_fields:
  assumes "length A = 4" "length P = 32" "length M = 32" "length T = 4" "length B = 4" "length N = 4"
  shows "decodeHeaderOnly_toPorcelain BitcoinBlock (A @ P @ M @ T @ B @ N) =
     Inr [''version'' \<mapsto> JNum (readInt32LE A),
          ''previousblockhash'' \<mapsto> JStr (toHex (rev P)),
          ''merkleroot'' \<mapsto> JStr (toHex (rev M)),
          ''time'' \<mapsto> JNum (readUInt32LE T),
          ''bits'' \<mapsto> JNum (readUInt32LE B),
          ''nonce'' \<mapsto> JNum (readUInt32LE N)]"
  using assms
  by (simp add: BitcoinBlock_def BitcoinBlock_decodeHeaderOnly_toPorcelain_def
        readInt32LE_def readUInt32LE_def)

lemma serializer_valid:
  assumes "r ''version'' = Some (JNum v)" "is_int32 v"
    and "r ''previousblockhash'' = Some (JStr ph)" "length ph = 64" "lowerHex ph"
    and "r ''merkleroot'' = Some (JStr mr)" "length mr = 64" "lowerHex mr"
    and "r ''time'' = Some (JNum t)" "is_uint32 t"
    and "r ''bits'' = Some (JNum b)" "is_uint32 b"
    and "r ''nonce'' = Some (JNum n)" "is_uint32 n"
  shows "fromPorcelain_encode BitcoinBlock r =
     Inr (writeInt32LE v @ rev (fromHex ph) @ rev (fromHex mr) @ writeUInt32LE t
          @ writeUInt32LE b @ writeUInt32LE n)"
  using assms
  by (simp add: BitcoinBlock_def BitcoinBlock_fromPorcelain_encode_def bindE_def
        lowerHex_isHexString)

text \<open>C1. For every valid header record \<open>r\<close>, \<^verbatim>\<open>encode\<close> returns 80 bytes, and
  \<^verbatim>\<open>decode\<close> of these bytes (as a \<^verbatim>\<open>Uint8Array\<close>) returns a record equal to \<open>r\<close>
  on version, previousblockhash, merkleroot, time, bits and nonce. The two links the
  decoder adds are not compared.\<close>

theorem header_round_trip:
  assumes "valid_header r"
  shows "\<exists>bytes d. encode BitcoinBlock (JObj r) = Inr bytes \<and> length bytes = 80
     \<and> decode BitcoinBlock (Uint8Array bytes) = Inr d
     \<and> d ''version'' = r ''version'' \<and> d ''previousblockhash'' = r ''previousblockhash''
     \<and> d ''merkleroot'' = r ''merkleroot'' \<and> d ''time'' = r ''time''
     \<and> d ''bits'' = r ''bits'' \<and> d ''nonce'' = r ''nonce''"
proof -
  from assms obtain v ph mr t b n
    where v: "r ''version'' = Some (JNum v)" "is_int32 v"
      and ph: "r ''previousblockhash'' = Some (JStr ph)" "length ph = 64" "lowerHex ph"
      and mr: "r ''merkleroot'' = Some (JStr mr)" "length mr = 64" "lowerHex mr"
      and t: "r ''time'' = Some (JNum t)" "is_uint32 t"
      and b: "r ''bits'' = Some (JNum b)" "is_uint32 b"
      and n: "r ''nonce'' = Some (JNum n)" "is_uint32 n"
    unfolding valid_header_def
    by (metis int32_fieldD uint32_fieldD hash_fieldD)
  let ?r' = "r(''tx'' \<mapsto> JNull)"
  let ?bytes = "writeInt32LE v @ rev (fromHex ph) @ rev (fromHex mr) @ writeUInt32LE t
          @ writeUInt32LE b @ writeUInt32LE n"
  have lp: "length (fromHex ph) = 32" and lm: "length (fromHex mr) = 32"
    using length_hash_bytes ph mr by simp_all
  have enc: "encode BitcoinBlock (JObj r) = Inr ?bytes"
  proof -
    have "encode BitcoinBlock (JObj r) = fromPorcelain_encode BitcoinBlock ?r'"
      by (simp add: encode_object)
    also have "\<dots> = Inr ?bytes"
      by (rule serializer_valid) (use v ph mr t b n in simp_all)
    finally show ?thesis .
  qed
  have len: "length ?bytes = 80" using lp lm by simp
  let ?p = "[''version'' \<mapsto> JNum (readInt32LE (writeInt32LE v)),
          ''previousblockhash'' \<mapsto> JStr (toHex (rev (rev (fromHex ph)))),
          ''merkleroot'' \<mapsto> JStr (toHex (rev (rev (fromHex mr)))),
          ''time'' \<mapsto> JNum (readUInt32LE (writeUInt32LE t)),
          ''bits'' \<mapsto> JNum (readUInt32LE (writeUInt32LE b)),
          ''nonce'' \<mapsto> JNum (readUInt32LE (writeUInt32LE n))]"
  have par: "decodeHeaderOnly_toPorcelain BitcoinBlock ?bytes = Inr ?p"
    by (rule parser_fields) (use lp lm in simp_all)
  have hp: "toHex (rev (rev (fromHex ph))) = ph" and hm: "toHex (rev (rev (fromHex mr))) = mr"
    using toHex_fromHex ph mr by simp_all
  have rv: "readInt32LE (writeInt32LE v) = v"
    using readInt32LE_write [OF v(2), of "[]"] by simp
  have p_eq: "?p = [''version'' \<mapsto> JNum v, ''previousblockhash'' \<mapsto> JStr ph,
          ''merkleroot'' \<mapsto> JStr mr, ''time'' \<mapsto> JNum t, ''bits'' \<mapsto> JNum b,
          ''nonce'' \<mapsto> JNum n]"
    by (simp only: hp hm rv readUInt32LE_write_only [OF t(2)] readUInt32LE_write_only [OF b(2)]
          readUInt32LE_write_only [OF n(2)])
  from decode_accepts [OF par, of "toHex (rev (rev (fromHex ph)))" "toHex (rev (rev (fromHex mr)))"]
  obtain d where d: "decode BitcoinBlock (Uint8Array ?bytes) = Inr d"
    and dd: "d = ?p(''parent'' \<mapsto> JCid \<lparr>version = 1, code = CODEC_BLOCK_CODE,
                 multihash = 0x56 # varint (length (fromHex (toHex (rev (rev (fromHex ph))))))
                             @ rev (fromHex (toHex (rev (rev (fromHex ph)))))\<rparr>,
             ''tx'' \<mapsto> JCid \<lparr>version = 1, code = CODEC_TX_CODE,
                 multihash = 0x56 # varint (length (fromHex (toHex (rev (rev (fromHex mr))))))
                             @ rev (fromHex (toHex (rev (rev (fromHex mr)))))\<rparr>)"
    by simp
  have "d ''version'' = r ''version''" "d ''previousblockhash'' = r ''previousblockhash''"
     "d ''merkleroot'' = r ''merkleroot''" "d ''time'' = r ''time''"
     "d ''bits'' = r ''bits''" "d ''nonce'' = r ''nonce''"
    unfolding dd p_eq using v ph mr t b n by simp_all
  with enc len d show ?thesis by blast
qed


lemma valid_example_header: "valid_header example_header"
  by (simp add: valid_header_def example_header_def is_int32_def is_uint32_def lowerHex_def
        lowerHexChar_def list_all_iff)

theorem header_round_trip_witness:
  "valid_header example_header
   \<and> (\<exists>bytes d. encode BitcoinBlock (JObj example_header) = Inr bytes \<and> length bytes = 80
     \<and> decode BitcoinBlock (Uint8Array bytes) = Inr d
     \<and> d ''version'' = example_header ''version''
     \<and> d ''previousblockhash'' = example_header ''previousblockhash''
     \<and> d ''merkleroot'' = example_header ''merkleroot''
     \<and> d ''time'' = example_header ''time''
     \<and> d ''bits'' = example_header ''bits'' \<and> d ''nonce'' = example_header ''nonce'')"
  using valid_example_header header_round_trip [OF valid_example_header] by blast

section \<open>Finding the witness commitment\<close>

lemma take_toHex: "take (2 * n) (toHex bs) = toHex (take n bs)"
proof (induction bs arbitrary: n)
  case Nil
  then show ?case by simp
next
  case (Cons b bs)
  show ?case
  proof (cases n)
    case 0
    then show ?thesis by simp
  next
    case (Suc m)
    then show ?thesis using Cons [of m] by simp
  qed
qed

lemma drop_toHex: "drop (2 * n) (toHex bs) = toHex (drop n bs)"
proof (induction bs arbitrary: n)
  case Nil
  then show ?case by simp
next
  case (Cons b bs)
  show ?case
  proof (cases n)
    case 0
    then show ?thesis by simp
  next
    case (Suc m)
    then show ?thesis using Cons [of m] by simp
  qed
qed

lemma toHex_eq_iff: "(toHex xs = toHex ys) = (xs = ys)"
  by (metis fromHex_toHex)

lemma toHex_commitment_prefix: "toHex commitment_prefix = ''6a24aa21a9ed''"
  by code_simp

lemma startsWith_prefix:
  "startsWith (toHex script) ''6a24aa21a9ed'' = (take 6 script = commitment_prefix)"
proof -
  have "take 12 (toHex script) = toHex (take 6 script)"
    using take_toHex [of 6 script] by simp
  moreover have "length ''6a24aa21a9ed'' = 12" by simp
  ultimately have "startsWith (toHex script) ''6a24aa21a9ed''
      = (toHex (take 6 script) = toHex commitment_prefix)"
    by (simp only: startsWith_def toHex_commitment_prefix)
  then show ?thesis by (simp only: toHex_eq_iff)
qed

lemma slice_commitment: "fromHex (slice_from 12 (toHex script)) = drop 6 script"
  using drop_toHex [of 6 script] by (simp add: slice_from_def fromHex_toHex)

lemma findWitnessCommitment_loop_bytes:
  "findWitnessCommitment_loop (map output_of outs)
     = map_option (\<lambda>script. take 32 (drop 6 script)) (find is_commitment (map snd outs))"
proof (induction outs)
  case Nil
  then show ?case by simp
next
  case (Cons out outs)
  show ?case
  proof (cases "is_commitment (snd out)")
    case True
    then have "length (snd out) = 38" and "take 6 (snd out) = commitment_prefix"
      by (simp_all add: is_commitment_def)
    then show ?thesis using True
      by (simp add: output_of_def startsWith_prefix slice_commitment Let_def)
  next
    case False
    then have "\<not> (length (snd out) = 38 \<and> take 6 (snd out) = commitment_prefix)"
      by (simp add: is_commitment_def)
    then show ?thesis using False Cons
      by (auto simp: output_of_def startsWith_prefix Let_def)
  qed
qed

text \<open>C5. On a block whose coinbase has the output scripts \<open>map snd outs\<close>, printed
  in hexadecimal as the block record holds them, \<^verbatim>\<open>findWitnessCommitment\<close> goes
  through the scripts in order; it returns bytes 6 to 37 of the first script that is
  exactly 38 bytes long and begins with \<^verbatim>\<open>6a24aa21a9ed\<close>, and \<^verbatim>\<open>undefined\<close> when no
  script of the coinbase is such a script.\<close>

theorem findWitnessCommitment_bytes:
  "findWitnessCommitment (blk\<lparr>tx := (coinbase\<lparr>vout := map output_of outs\<rparr>) # others\<rparr>)
     = Inr (map_option (\<lambda>script. take 32 (drop 6 script))
              (find is_commitment (map snd outs)))"
  by (simp add: findWitnessCommitment_def findWitnessCommitment_loop_bytes)

theorem findWitnessCommitment_bytes_witness:
  "findWitnessCommitment
     \<lparr>tx = [example_tx\<lparr>vout := map output_of
                [(5000000000, [0x6a]), (0, commitment_prefix @ replicate 32 0x11)]\<rparr>,
            example_tx]\<rparr>
     = Inr (Some (replicate 32 0x11))
   \<and> findWitnessCommitment
     \<lparr>tx = [example_tx\<lparr>vout := map output_of
                [(5000000000, [0x6a]), (0, commitment_prefix @ replicate 31 0x11)]\<rparr>]\<rparr>
     = Inr None"
proof -
  have a: "find is_commitment (map snd [(5000000000 :: int, [0x6a]),
              (0, commitment_prefix @ replicate 32 0x11)])
           = Some (commitment_prefix @ replicate 32 0x11)"
    by (simp add: is_commitment_def commitment_prefix_def)
  have b: "find is_commitment (map snd [(5000000000 :: int, [0x6a]),
              (0, commitment_prefix @ replicate 31 0x11)]) = None"
    by (simp add: is_commitment_def commitment_prefix_def)
  have c: "take 32 (drop 6 (commitment_prefix @ replicate 32 (0x11 :: byte))) = replicate 32 0x11"
    by (simp add: commitment_prefix_def)
  have e: "\<lparr>tx = [example_tx\<lparr>vout := v\<rparr>, example_tx]\<rparr>
             = \<lparr>tx = []\<rparr>\<lparr>tx := (example_tx\<lparr>vout := v\<rparr>) # [example_tx]\<rparr>"
    "\<lparr>tx = [example_tx\<lparr>vout := v\<rparr>]\<rparr> = \<lparr>tx = []\<rparr>\<lparr>tx := (example_tx\<lparr>vout := v\<rparr>) # []\<rparr>" for v
    by simp_all
  show ?thesis
    unfolding e
    by (simp only: findWitnessCommitment_bytes a b c option.map)
qed

lemma findWitnessCommitment_none:
  "(findWitnessCommitment (blk\<lparr>tx := (coinbase\<lparr>vout := map output_of outs\<rparr>) # others\<rparr>) = Inr None)
     = (\<not> (\<exists>script \<in> set (map snd outs). is_commitment script))"
  by (simp add: findWitnessCommitment_def findWitnessCommitment_loop_bytes find_None_iff)

section \<open>The two encodings of a transaction\<close>

text \<open>C3. For a transaction that is not segregated-witness-tagged, the witness-inclusive
  and the witness-stripped encodings are the same bytes.\<close>

theorem non_segwit_encodings_equal:
  "\<not> segwit_tagged t \<Longrightarrow> encode_tx t True = encode_tx t False"
  by (simp add: encode_tx_def)

theorem non_segwit_encodings_equal_witness:
  "\<not> segwit_tagged example_tx \<and> encode_tx example_tx True = encode_tx example_tx False"
proof -
  have h: "\<not> segwit_tagged example_tx" by (simp add: segwit_tagged_def example_tx_def)
  show ?thesis using h non_segwit_encodings_equal [OF h] by simp
qed

text \<open>For a tagged transaction they differ: the witness-inclusive one is longer.\<close>

lemma segwit_encodings_differ:
  "segwit_tagged t \<Longrightarrow> length (encode_tx t False) < length (encode_tx t True)"
  by (simp add: encode_tx_def SEGWIT_MARKER_FLAG_def)

lemma segwit_example: "segwit_tagged example_segwit_tx"
  by (simp add: segwit_tagged_def example_segwit_tx_def)

section \<open>Counting the nodes of the merkle tree\<close>

declare merkle.simps [simp del] expectedNodes_loop.simps [simp del]

lemma length_pairs: "length (pairs ys) = length ys div 2"
  by (induction ys rule: pairs.induct) auto

lemma length_next_level: "length (next_level dh level) = (length level + 1) div 2"
  by (auto simp: next_level_def dup_last_def length_pairs elim!: oddE)

text \<open>The loop of \<^verbatim>\<open>verifyMerkle\<close> adds to its count the sizes of the levels the
  builder makes above a level.\<close>

lemma merkle_count:
  "expectedNodes_loop (length level) e = e + length (merkle dh level)"
proof (induction dh level arbitrary: e rule: merkle.induct)
  case (1 dh level)
  show ?case
  proof (cases "1 < length level")
    case False
    then show ?thesis
      by (subst expectedNodes_loop.simps, subst merkle.simps) simp
  next
    case True
    let ?nxt = "next_level dh level"
    have l: "length (map digest ?nxt) = (length level + 1) div 2"
      by (simp add: length_next_level)
    have "expectedNodes_loop (length level) e
            = expectedNodes_loop ((length level + 1) div 2) (e + (length level + 1) div 2)"
      using True by (subst expectedNodes_loop.simps) (simp add: Let_def)
    also have "\<dots> = e + (length level + 1) div 2 + length (merkle dh (map digest ?nxt))"
      using "1.IH" [OF True refl, of "e + (length level + 1) div 2"] l by simp
    also have "\<dots> = e + length (merkle dh level)"
      using True by (subst (2) merkle.simps) (simp add: Let_def length_next_level)
    finally show ?thesis .
  qed
qed

lemma tree_count: "length level + length (merkle dh level) = expectedNodes (length level)"
  by (simp add: expectedNodes_def merkle_count [of level "length level" dh])

lemma encodeAll_count:
  assumes "1 \<le> length txs"
  shows "verifyMerkle_index witness (encodeAll dh witness txs) = expectedNodes (length txs)"
proof (cases witness)
  case False
  then show ?thesis
    using tree_count [of "map digest (map (leaf dh False) txs)" dh]
    by (simp add: verifyMerkle_index_def encodeAll_def Let_def)
next
  case True
  let ?hashes = "replicate (min 1 (length txs)) (replicate 32 (0::byte))
                   @ map digest (drop 1 (map (leaf dh True) txs))"
  have "length ?hashes = length txs" using assms by simp
  with tree_count [of ?hashes dh]
  have "length txs + length (merkle dh ?hashes) = expectedNodes (length txs)" by simp
  then show ?thesis using True assms
    by (simp add: verifyMerkle_index_def encodeAll_def Let_def)
qed

lemma expectedNodes_2: "expectedNodes 2 = 3"
  by code_simp

lemma expectedNodes_3: "expectedNodes 3 = 6"
  by code_simp

text \<open>C4, as the code has it. For more than one transaction: without witness data the
  builder emits as many nodes as the sum that starts at the number of transactions and
  adds the size of each level above, each half the one below rounded up, down to 1;
  in witness mode, where the coinbase leaf is in the tree but is not emitted, it emits
  one node less. In both modes the count of \<^verbatim>\<open>verifyMerkle\<close>, which starts at 1 in
  witness mode, ends at that sum.\<close>

theorem emitted_node_count:
  assumes "1 < length txs"
  shows "length (encodeAll dh False txs) = expectedNodes (length txs)
     \<and> length (encodeAll dh True txs) + 1 = expectedNodes (length txs)
     \<and> verifyMerkle_count (length txs) witness (encodeAll dh witness txs)"
proof -
  from assms have n: "1 \<le> length txs" by simp
  from encodeAll_count [OF n, of False dh] encodeAll_count [OF n, of True dh]
    encodeAll_count [OF n, of witness dh]
  show ?thesis by (simp add: verifyMerkle_index_def verifyMerkle_count_def)
qed

theorem emitted_node_count_witness:
  "1 < length [example_tx, example_segwit_tx, example_tx]
   \<and> length (encodeAll (\<lambda>bytes. bytes) False [example_tx, example_segwit_tx, example_tx]) = 6
   \<and> length (encodeAll (\<lambda>bytes. bytes) True [example_tx, example_segwit_tx, example_tx]) + 1 = 6"
proof -
  have h: "1 < length [example_tx, example_segwit_tx, example_tx]" by simp
  have l: "length [example_tx, example_segwit_tx, example_tx] = 3" by simp
  from emitted_node_count [OF h, of "\<lambda>bytes. bytes" True] h show ?thesis
    unfolding l expectedNodes_3 by blast
qed

text \<open>C4, as the specification words it, fails in witness mode: of two transactions the builder
  emits two nodes, the second leaf and the root, where the sum is three.\<close>

theorem emitted_node_count_counterexample:
  "length (encodeAll (\<lambda>bytes. bytes) True [example_tx, example_tx]) = 2 \<and> expectedNodes 2 = 3
   \<and> length (encodeAll (\<lambda>bytes. bytes) True [example_tx, example_tx]) \<noteq> expectedNodes 2"
proof -
  have l: "length [example_tx, example_tx] = 2" by simp
  have "1 \<le> length [example_tx, example_tx]" by simp
  from encodeAll_count [OF this, of True "\<lambda>bytes. bytes"]
  have "1 + length (encodeAll (\<lambda>bytes. bytes) True [example_tx, example_tx]) = 3"
    unfolding l expectedNodes_2 verifyMerkle_index_def by simp
  then show ?thesis using expectedNodes_2 by simp
qed

section \<open>What \<^verbatim>\<open>encode\<close> refuses\<close>




text \<open>What \<^verbatim>\<open>null\<close> meets behind the guard: the serialiser is handed an object whose
  only property is \<^verbatim>\<open>tx\<close>. The parser as the spec describes it refuses that object
  for its missing version.\<close>

lemma encode_null_reaches_serializer:
  "encode lib JNull = fromPorcelain_encode lib [''tx'' \<mapsto> JNull]"
  by (simp add: encode_object)

lemma encode_null_TypeError:
  "encode BitcoinBlock JNull = Inl (TypeError ''version property must be a number'')"
  by (simp add: encode_object BitcoinBlock_def BitcoinBlock_fromPorcelain_encode_def bindE_def)

section \<open>Re-encoding a decoded header\<close>

text \<open>The other direction of the round trip: the record decoded from 80 bytes, with the
  two links it carries, encodes to the same 80 bytes.\<close>

lemma hexval_toHex: "list_all (\<lambda>c. hexval c \<noteq> None) (toHex bs)"
proof (induction bs)
  case Nil
  then show ?case by simp
next
  case (Cons b bs)
  have "unat b < 256" using unsigned_less [of b, where ?'a = nat] by simp
  then have "unat b div 16 < 16" and "unat b mod 16 < 16" by simp_all
  then show ?case using Cons by (simp add: hexval_hexdigit)
qed

lemma isHexString_toHex: "isHexString (toHex bs) (2 * length bs)"
  unfolding isHexString_def by (intro conjI length_toHex hexval_toHex)

lemma write_read_UInt32LE: "length T = 4 \<Longrightarrow> writeUInt32LE (readUInt32LE T) = T"
proof -
  assume l: "length T = 4"
  have "le_nat T < 256 ^ length T" by (rule le_nat_bound)
  then have b: "le_nat T < 4294967296" using l by simp
  then have "int (le_nat T) mod 4294967296 = int (le_nat T)" by simp
  then show ?thesis using l le_bytes_le_nat [of T]
    by (simp add: writeUInt32LE_def readUInt32LE_def)
qed

lemma uint32_readUInt32LE: "length T = 4 \<Longrightarrow> is_uint32 (readUInt32LE T)"
proof -
  assume l: "length T = 4"
  have "le_nat T < 256 ^ length T" by (rule le_nat_bound)
  then show ?thesis using l by (simp add: is_uint32_def readUInt32LE_def)
qed

lemma int32_readInt32LE: "length A = 4 \<Longrightarrow> is_int32 (readInt32LE A)"
proof -
  assume l: "length A = 4"
  have "le_nat A < 256 ^ length A" by (rule le_nat_bound)
  then have "le_nat A < 4294967296" using l by simp
  then show ?thesis using l by (auto simp: is_int32_def readInt32LE_def Let_def)
qed

lemma write_read_Int32LE: "length A = 4 \<Longrightarrow> writeInt32LE (readInt32LE A) = A"
proof -
  assume l: "length A = 4"
  have "le_nat A < 256 ^ length A" by (rule le_nat_bound)
  then have b: "le_nat A < 4294967296" using l by simp
  have "readInt32LE A mod 4294967296 = int (le_nat A)"
  proof (cases "int (le_nat A) < 2147483648")
    case True
    then show ?thesis using b l by (simp add: readInt32LE_def Let_def)
  next
    case False
    have "(int (le_nat A) - 4294967296) mod 4294967296 = int (le_nat A) mod 4294967296"
      by (rule minus_mod_self2)
    then show ?thesis using False b l by (simp add: readInt32LE_def Let_def)
  qed
  then show ?thesis using l le_bytes_le_nat [of A] by (simp add: writeInt32LE_def)
qed

lemma header_split:
  assumes "length bs = 80"
  shows "bs = take 4 bs @ take 32 (drop 4 bs) @ take 32 (drop 36 bs) @ take 4 (drop 68 bs)
              @ take 4 (drop 72 bs) @ drop 76 bs"
proof -
  have "bs = take 4 bs @ drop 4 bs" by simp
  also have "drop 4 bs = take 32 (drop 4 bs) @ drop 36 bs"
    using append_take_drop_id [of 32 "drop 4 bs"] by simp
  also have "drop 36 bs = take 32 (drop 36 bs) @ drop 68 bs"
    using append_take_drop_id [of 32 "drop 36 bs"] by simp
  also have "drop 68 bs = take 4 (drop 68 bs) @ drop 72 bs"
    using append_take_drop_id [of 4 "drop 68 bs"] by simp
  also have "drop 72 bs = take 4 (drop 72 bs) @ drop 76 bs"
    using append_take_drop_id [of 4 "drop 72 bs"] by simp
  finally show ?thesis .
qed

lemma header_reencode:
  assumes "length bs = 80"
  shows "\<exists>d. decode BitcoinBlock (Uint8Array bs) = Inr d \<and> encode BitcoinBlock (JObj d) = Inr bs"
proof -
  let ?A = "take 4 bs" and ?P = "take 32 (drop 4 bs)" and ?M = "take 32 (drop 36 bs)"
  let ?T = "take 4 (drop 68 bs)" and ?B = "take 4 (drop 72 bs)" and ?N = "drop 76 bs"
  have len: "length ?A = 4" "length ?P = 32" "length ?M = 32" "length ?T = 4" "length ?B = 4"
    "length ?N = 4" using assms by simp_all
  let ?p = "[''version'' \<mapsto> JNum (readInt32LE ?A),
          ''previousblockhash'' \<mapsto> JStr (toHex (rev ?P)),
          ''merkleroot'' \<mapsto> JStr (toHex (rev ?M)),
          ''time'' \<mapsto> JNum (readUInt32LE ?T),
          ''bits'' \<mapsto> JNum (readUInt32LE ?B),
          ''nonce'' \<mapsto> JNum (readUInt32LE ?N)]"
  have "decodeHeaderOnly_toPorcelain BitcoinBlock (?A @ ?P @ ?M @ ?T @ ?B @ ?N) = Inr ?p"
    using len by (rule parser_fields)
  then have par: "decodeHeaderOnly_toPorcelain BitcoinBlock bs = Inr ?p"
    using header_split [OF assms] by simp
  from decode_accepts [OF par, of "toHex (rev ?P)" "toHex (rev ?M)"]
  obtain d where d: "decode BitcoinBlock (Uint8Array bs) = Inr d"
    and f: "d ''version'' = Some (JNum (readInt32LE ?A))"
      "d ''previousblockhash'' = Some (JStr (toHex (rev ?P)))"
      "d ''merkleroot'' = Some (JStr (toHex (rev ?M)))"
      "d ''time'' = Some (JNum (readUInt32LE ?T))"
      "d ''bits'' = Some (JNum (readUInt32LE ?B))"
      "d ''nonce'' = Some (JNum (readUInt32LE ?N))"
    by simp
  have hx: "isHexString (toHex (rev ?P)) 64" "isHexString (toHex (rev ?M)) 64"
    using isHexString_toHex [of "rev ?P"] isHexString_toHex [of "rev ?M"] len by simp_all
  have "fromPorcelain_encode BitcoinBlock (d(''tx'' \<mapsto> JNull))
          = Inr (writeInt32LE (readInt32LE ?A) @ rev (fromHex (toHex (rev ?P)))
                 @ rev (fromHex (toHex (rev ?M))) @ writeUInt32LE (readUInt32LE ?T)
                 @ writeUInt32LE (readUInt32LE ?B) @ writeUInt32LE (readUInt32LE ?N))"
    using f hx int32_readInt32LE [OF len(1)] uint32_readUInt32LE [OF len(4)]
      uint32_readUInt32LE [OF len(5)] uint32_readUInt32LE [OF len(6)]
    by (simp add: BitcoinBlock_def BitcoinBlock_fromPorcelain_encode_def bindE_def)
  also have "\<dots> = Inr (?A @ ?P @ ?M @ ?T @ ?B @ ?N)"
    by (simp only: fromHex_toHex rev_rev_ident write_read_Int32LE [OF len(1)]
          write_read_UInt32LE [OF len(4)] write_read_UInt32LE [OF len(5)]
          write_read_UInt32LE [OF len(6)])
  also have "\<dots> = Inr bs" using header_split [OF assms] by simp
  finally have "encode BitcoinBlock (JObj d) = Inr bs" by (simp add: encode_object)
  with d show ?thesis by blast
qed

end
